theory Spec2Isabelle
  imports Complex_Main
begin

section \<open>Bundle matcher (app/api/bundles.py)\<close>

text \<open>
  The \<^verbatim>\<open>Bundle\<close> table of app/models.py. Columns declared \<^verbatim>\<open>nullable=False\<close> hold an
  integer, the nullable ones an optional value (\<open>None\<close> is SQL NULL). The timestamp
  columns and the relationships play no part in matching and are left out.
\<close>

record Bundle =
  b_id :: int
  b_name :: string
  b_coffee_machine_id :: int
  b_fridge_id :: "int option"
  b_carcass_id :: int
  b_carcass_color_id :: int
  b_design_color_id :: int
  b_terminal_id :: "int option"
  b_carcass_design_combination_id :: "int option"
  b_custom_price :: "int option"
  b_ozon_url :: "string option"
  b_is_available :: bool
  b_show_on_site :: bool

text \<open>The query parameters of \<^verbatim>\<open>preview_bundle\<close>; an omitted parameter is \<open>None\<close>.\<close>

record preview_query =
  q_coffee_machine_id :: int
  q_fridge_id :: "int option"
  q_carcass_id :: int
  q_carcass_color_id :: int
  q_design_color_id :: int
  q_terminal_id :: "int option"
  q_carcass_design_combination_id :: "int option"

record preview_response =
  is_exact_bundle :: bool
  bundle_id :: "int option"
  custom_price :: "int option"
  ozon_url :: "string option"

datatype http_error = Unprocessable | Forbidden | NotFound string

text \<open>
  SQL conditions are three-valued: comparing a NULL column with \<^verbatim>\<open>=\<close> is unknown
  (\<open>None\<close>), \<^verbatim>\<open>IS NULL\<close> is always known, \<^verbatim>\<open>AND\<close> is false as soon as one
  operand is false and unknown when an operand is unknown and none is false. A
  \<^verbatim>\<open>WHERE\<close> clause keeps the rows whose condition is true.
\<close>

type_synonym sql_bool = "bool option"

definition sql_eq :: "int option \<Rightarrow> int \<Rightarrow> sql_bool" where
  "sql_eq col v = (case col of None \<Rightarrow> None | Some x \<Rightarrow> Some (x = v))"

definition sql_is_null :: "int option \<Rightarrow> sql_bool" where
  "sql_is_null col = Some (col = None)"

definition sql_is_true :: "bool \<Rightarrow> sql_bool" where
  "sql_is_true col = Some col"

fun sql_and2 :: "sql_bool \<Rightarrow> sql_bool \<Rightarrow> sql_bool" where
  "sql_and2 (Some False) _ = Some False"
| "sql_and2 _ (Some False) = Some False"
| "sql_and2 None _ = None"
| "sql_and2 _ None = None"
| "sql_and2 (Some True) (Some True) = Some True"

definition sql_and :: "sql_bool list \<Rightarrow> sql_bool" where
  "sql_and fs = foldr sql_and2 fs (Some True)"

definition sql_where :: "('r \<Rightarrow> sql_bool) \<Rightarrow> 'r list \<Rightarrow> 'r list" where
  "sql_where cond rows = filter (\<lambda>r. cond r = Some True) rows"

text \<open>
  The filter list that \<^verbatim>\<open>preview_bundle\<close> builds, in the source's order: the four
  mandatory equalities, then the fridge, the optional combination, the terminal.
\<close>

definition preview_filters :: "preview_query \<Rightarrow> Bundle \<Rightarrow> sql_bool list" where
  "preview_filters q b =
     [sql_eq (Some (b_coffee_machine_id b)) (q_coffee_machine_id q),
      sql_eq (Some (b_carcass_id b)) (q_carcass_id q),
      sql_eq (Some (b_carcass_color_id b)) (q_carcass_color_id q),
      sql_eq (Some (b_design_color_id b)) (q_design_color_id q)]
     @ (case q_fridge_id q of
          None \<Rightarrow> [sql_is_null (b_fridge_id b)]
        | Some f \<Rightarrow> [sql_eq (b_fridge_id b) f])
     @ (case q_carcass_design_combination_id q of
          None \<Rightarrow> []
        | Some v \<Rightarrow> [sql_eq (b_carcass_design_combination_id b) v])
     @ (case q_terminal_id q of
          None \<Rightarrow> [sql_is_null (b_terminal_id b)]
        | Some t \<Rightarrow> [sql_eq (b_terminal_id b) t])"

text \<open>
  FastAPI checks the declared bounds (\<^verbatim>\<open>ge=1\<close>) before the body runs and rejects the
  request otherwise.
\<close>

definition query_valid :: "preview_query \<Rightarrow> bool" where
  "query_valid q \<longleftrightarrow>
     1 \<le> q_coffee_machine_id q \<and> 1 \<le> q_carcass_id q \<and>
     1 \<le> q_carcass_color_id q \<and> 1 \<le> q_design_color_id q \<and>
     (case q_fridge_id q of None \<Rightarrow> True | Some f \<Rightarrow> 1 \<le> f) \<and>
     (case q_terminal_id q of None \<Rightarrow> True | Some t \<Rightarrow> 1 \<le> t) \<and>
     (case q_carcass_design_combination_id q of None \<Rightarrow> True | Some v \<Rightarrow> 1 \<le> v)"

text \<open>
  \<^verbatim>\<open>select(Bundle).where(and_(*filters)).limit(1)\<close> followed by \<^verbatim>\<open>.first()\<close>: the
  first row, in the order the table is scanned, that satisfies the condition. The table
  is the list of its rows in that order.
\<close>

definition preview_bundle :: "Bundle list \<Rightarrow> preview_query \<Rightarrow> http_error + preview_response" where
  "preview_bundle bundles q =
     (if \<not> query_valid q then Inl Unprocessable
      else case sql_where (\<lambda>b. sql_and (preview_filters q b)) bundles of
             [] \<Rightarrow> Inr \<lparr>is_exact_bundle = False, bundle_id = None,
                        custom_price = None, ozon_url = None\<rparr>
           | b # _ \<Rightarrow> Inr \<lparr>is_exact_bundle = True, bundle_id = Some (b_id b),
                           custom_price = b_custom_price b, ozon_url = b_ozon_url b\<rparr>)"

text \<open>\<^verbatim>\<open>list_bundles\<close>: the bundles marked \<^verbatim>\<open>show_on_site\<close>, ordered by id.\<close>

definition list_bundles :: "Bundle list \<Rightarrow> Bundle list" where
  "list_bundles bundles =
     sort_key b_id (sql_where (\<lambda>b. sql_is_true (b_show_on_site b)) bundles)"

text \<open>The tuple equality the matcher is meant to decide.\<close>

definition tuple_matches :: "preview_query \<Rightarrow> Bundle \<Rightarrow> bool" where
  "tuple_matches q b \<longleftrightarrow>
     b_coffee_machine_id b = q_coffee_machine_id q \<and>
     b_carcass_id b = q_carcass_id q \<and>
     b_carcass_color_id b = q_carcass_color_id q \<and>
     b_design_color_id b = q_design_color_id q \<and>
     b_fridge_id b = q_fridge_id q \<and>
     b_terminal_id b = q_terminal_id q \<and>
     (case q_carcass_design_combination_id q of
        None \<Rightarrow> True
      | Some v \<Rightarrow> b_carcass_design_combination_id b = Some v)"

definition spec_bundle :: Bundle where
  "spec_bundle = \<lparr>b_id = 7, b_name = ''Kiosk'', b_coffee_machine_id = 1, b_fridge_id = None,
     b_carcass_id = 2, b_carcass_color_id = 3, b_design_color_id = 4, b_terminal_id = None,
     b_carcass_design_combination_id = None, b_custom_price = Some 99000,
     b_ozon_url = None, b_is_available = False, b_show_on_site = False\<rparr>"

definition spec_query :: preview_query where
  "spec_query = \<lparr>q_coffee_machine_id = 1, q_fridge_id = None, q_carcass_id = 2,
     q_carcass_color_id = 3, q_design_color_id = 4, q_terminal_id = None,
     q_carcass_design_combination_id = None\<rparr>"

section \<open>Variation registry (app/admin_routes.py)\<close>

text \<open>
  The \<^verbatim>\<open>CarcassDesignCombination\<close> table of app/models.py. The \<^verbatim>\<open>code\<close> column is filled
  with a random suffix by a \<^verbatim>\<open>before_insert\<close> hook and the timestamps by the database;
  neither is read by the routes below and both are left out.
\<close>

record CarcassDesignCombination =
  cdc_id :: int
  cdc_carcass_id :: int
  cdc_carcass_color_id :: int
  cdc_design_color_id :: int
  cdc_name :: string
  cdc_main_image_url :: "string option"
  cdc_gallery_image_urls :: string
  cdc_active :: bool
  cdc_is_default :: bool

text \<open>
  The part of the database the variation routes touch. The three catalogues map a
  primary key to the row's \<^verbatim>\<open>name\<close>; the combinations are the table's rows in insertion
  order; \<open>next_combination_id\<close> is the value the autoincrement primary key gives the
  next inserted row.
\<close>

record store =
  carcasses :: "int \<rightharpoonup> string"
  carcass_colors :: "int \<rightharpoonup> string"
  design_colors :: "int \<rightharpoonup> string"
  combinations :: "CarcassDesignCombination list"
  next_combination_id :: int

text \<open>
  The form of \<^verbatim>\<open>create_variation\<close>. The uploads are stored by the file storage, outside
  these routes: \<open>f_main_url\<close> is what \<^verbatim>\<open>_save_optional\<close> returns and \<open>f_gallery_json\<close> the
  text \<^verbatim>\<open>json.dumps\<close> makes of what \<^verbatim>\<open>_save_gallery\<close> returns.
\<close>

record variation_form =
  f_carcass_color_id :: int
  f_design_color_id :: int
  f_main_url :: "string option"
  f_gallery_json :: string
  f_is_default :: bool

text \<open>The redirects the routes answer with, named by their query string.\<close>

datatype redirect =
  VariationErrorDuplicate | VariationCreated | VariationDeleted | VariationUpdated

text \<open>
  \<^verbatim>\<open>_set_default_variation\<close>: every combination of the cabinet gets
  \<^verbatim>\<open>is_default = (id == variation_id)\<close>; the other cabinets' rows are not selected.
\<close>

definition priv_set_default_variation :: "store \<Rightarrow> int \<Rightarrow> int \<Rightarrow> store" where
  "priv_set_default_variation s carcass_id variation_id =
     s\<lparr>combinations :=
         map (\<lambda>combo. if cdc_carcass_id combo = carcass_id
                       then combo\<lparr>cdc_is_default := (cdc_id combo = variation_id)\<rparr>
                       else combo)
             (combinations s)\<rparr>"

text \<open>The separator of the derived name is U+00B7 (two bytes in UTF-8) between spaces.\<close>

definition combination_name :: "string \<Rightarrow> string \<Rightarrow> string \<Rightarrow> string" where
  "combination_name carcass_name color_name design_name =
     carcass_name @ '' '' @ [CHR 0xC2, CHR 0xB7] @ '' '' @ color_name @ '' + '' @ design_name"

definition create_variation ::
  "bool \<Rightarrow> store \<Rightarrow> int \<Rightarrow> variation_form \<Rightarrow> (http_error + redirect) \<times> store" where
  "create_variation admin s carcass_id f =
     (if \<not> admin then (Inl Forbidden, s)
      else case carcasses s carcass_id of
        None \<Rightarrow> (Inl (NotFound ''Carcass not found''), s)
      | Some carcass_name \<Rightarrow>
          if filter (\<lambda>combo. cdc_carcass_id combo = carcass_id \<and>
                            cdc_carcass_color_id combo = f_carcass_color_id f \<and>
                            cdc_design_color_id combo = f_design_color_id f)
                (combinations s) \<noteq> []
          then (Inr VariationErrorDuplicate, s)
          else case (carcass_colors s (f_carcass_color_id f),
                     design_colors s (f_design_color_id f)) of
            (Some color_name, Some design_name) \<Rightarrow>
              let combination =
                    \<lparr>cdc_id = next_combination_id s,
                     cdc_carcass_id = carcass_id,
                     cdc_carcass_color_id = f_carcass_color_id f,
                     cdc_design_color_id = f_design_color_id f,
                     cdc_name = combination_name carcass_name color_name design_name,
                     cdc_main_image_url = f_main_url f,
                     cdc_gallery_image_urls = f_gallery_json f,
                     cdc_active = True,
                     cdc_is_default = f_is_default f\<rparr>;
                  s1 = s\<lparr>combinations := combinations s @ [combination],
                         next_combination_id := next_combination_id s + 1\<rparr>
              in (Inr VariationCreated,
                  if f_is_default f
                  then priv_set_default_variation s1 carcass_id (cdc_id combination)
                  else s1)
          | _ \<Rightarrow> (Inl (NotFound ''Color not found''), s))"

definition set_default_variation ::
  "bool \<Rightarrow> store \<Rightarrow> int \<Rightarrow> int \<Rightarrow> (http_error + redirect) \<times> store" where
  "set_default_variation admin s carcass_id variation_id =
     (if \<not> admin then (Inl Forbidden, s)
      else case find (\<lambda>combo. cdc_id combo = variation_id) (combinations s) of
        None \<Rightarrow> (Inl (NotFound ''Variation not found''), s)
      | Some variation \<Rightarrow>
          if cdc_carcass_id variation \<noteq> carcass_id
          then (Inl (NotFound ''Variation not found''), s)
          else (Inr VariationUpdated, priv_set_default_variation s carcass_id variation_id))"

text \<open>A request to the registry, and a run of requests from a store.\<close>

datatype registry_op =
  Register bool int variation_form
| SetDefault bool int int

fun registry_step :: "store \<Rightarrow> registry_op \<Rightarrow> (http_error + redirect) \<times> store" where
  "registry_step s (Register admin carcass_id f) = create_variation admin s carcass_id f"
| "registry_step s (SetDefault admin carcass_id variation_id) =
     set_default_variation admin s carcass_id variation_id"

fun registry_run :: "store \<Rightarrow> registry_op list \<Rightarrow> store" where
  "registry_run s [] = s"
| "registry_run s (x # xs) = registry_run (snd (registry_step s x)) xs"

text \<open>The number of a cabinet's variations that are marked default.\<close>

definition default_count :: "store \<Rightarrow> int \<Rightarrow> nat" where
  "default_count s c =
     length (filter (\<lambda>combo. cdc_carcass_id combo = c \<and> cdc_is_default combo) (combinations s))"

text \<open>
  Whether a request, answered from store \<open>s\<close>, sets a default for cabinet \<open>c\<close>: a
  registration with \<^verbatim>\<open>is_default\<close> that is created, or a \<^verbatim>\<open>set_default\<close> that is carried
  out; and whether some request of a run does.
\<close>

fun sets_default :: "store \<Rightarrow> registry_op \<Rightarrow> int \<Rightarrow> bool" where
  "sets_default s (Register admin carcass_id f) c \<longleftrightarrow>
     carcass_id = c \<and> f_is_default f \<and>
     fst (create_variation admin s carcass_id f) = Inr VariationCreated"
| "sets_default s (SetDefault admin carcass_id variation_id) c \<longleftrightarrow>
     carcass_id = c \<and>
     fst (set_default_variation admin s carcass_id variation_id) = Inr VariationUpdated"

fun default_ever_set :: "store \<Rightarrow> registry_op list \<Rightarrow> int \<Rightarrow> bool" where
  "default_ever_set s [] c \<longleftrightarrow> False"
| "default_ever_set s (x # xs) c \<longleftrightarrow>
     sets_default s x c \<or> default_ever_set (snd (registry_step s x)) xs c"

text \<open>Whether the triple is registered.\<close>

definition registered :: "store \<Rightarrow> int \<Rightarrow> int \<Rightarrow> int \<Rightarrow> bool" where
  "registered s c a b \<longleftrightarrow>
     (\<exists>combo \<in> set (combinations s).
        cdc_carcass_id combo = c \<and> cdc_carcass_color_id combo = a \<and>
        cdc_design_color_id combo = b)"

text \<open>
  The primary key is unique, and the autoincrement value lies above every key in use.
\<close>

definition keys_fresh :: "store \<Rightarrow> bool" where
  "keys_fresh s \<longleftrightarrow>
     distinct (map cdc_id (combinations s)) \<and>
     (\<forall>combo \<in> set (combinations s). cdc_id combo < next_combination_id s)"

definition example_store :: store where
  "example_store =
     \<lparr>carcasses = [1 \<mapsto> ''Kiosk''],
      carcass_colors = [1 \<mapsto> ''White'', 2 \<mapsto> ''Black''],
      design_colors = [1 \<mapsto> ''Oak'', 2 \<mapsto> ''Steel''],
      combinations = [],
      next_combination_id = 1\<rparr>"

definition example_form :: "int \<Rightarrow> int \<Rightarrow> bool \<Rightarrow> variation_form" where
  "example_form a b d =
     \<lparr>f_carcass_color_id = a, f_design_color_id = b, f_main_url = None,
      f_gallery_json = ''[]'', f_is_default = d\<rparr>"

text \<open>The invariant of the registry, and the condition under which a registration is created.\<close>

definition registry_inv :: "store \<Rightarrow> bool" where
  "registry_inv s \<longleftrightarrow> keys_fresh s \<and> (\<forall>c. default_count s c \<le> 1)"

definition create_ok :: "bool \<Rightarrow> store \<Rightarrow> int \<Rightarrow> variation_form \<Rightarrow> bool" where
  "create_ok admin s c f \<longleftrightarrow>
     admin \<and> carcasses s c \<noteq> None \<and>
     \<not> registered s c (f_carcass_color_id f) (f_design_color_id f) \<and>
     carcass_colors s (f_carcass_color_id f) \<noteq> None \<and>
     design_colors s (f_design_color_id f) \<noteq> None"

definition run_ops :: "registry_op list" where
  "run_ops = [Register True 1 (example_form 1 2 True), Register True 1 (example_form 2 1 True),
              Register True 1 (example_form 1 2 False), SetDefault True 1 1, SetDefault True 1 9]"

section \<open>Python strings and cell values\<close>

text \<open>
  A Python \<^verbatim>\<open>str\<close> is a \<open>string\<close>. \<^verbatim>\<open>str.strip()\<close> removes leading and trailing white
  space; the white space of ASCII text is modelled (tab, line feed, vertical tab, form
  feed, carriage return, the four separators \<^verbatim>\<open>0x1c\<close> to \<^verbatim>\<open>0x1f\<close>, space).
  \<^verbatim>\<open>str.rstrip(chars)\<close> removes the trailing characters that occur in \<^verbatim>\<open>chars\<close>.
\<close>

definition py_isspace :: "char \<Rightarrow> bool" where
  "py_isspace c \<longleftrightarrow>
     c \<in> set [CHR 0x09, CHR 0x0A, CHR 0x0B, CHR 0x0C, CHR 0x0D,
               CHR 0x1C, CHR 0x1D, CHR 0x1E, CHR 0x1F, CHR '' '']"

definition py_strip :: "string \<Rightarrow> string" where
  "py_strip s = rev (dropWhile py_isspace (rev (dropWhile py_isspace s)))"

definition py_rstrip :: "string \<Rightarrow> string \<Rightarrow> string" where
  "py_rstrip chars s = rev (dropWhile (\<lambda>c. c \<in> set chars) (rev s))"

definition startswith :: "string \<Rightarrow> string \<Rightarrow> bool" where
  "startswith s p \<longleftrightarrow> take (length p) s = p"

text \<open>
  The value of a spreadsheet cell as \<^verbatim>\<open>openpyxl\<close> hands it over: empty, text, a whole
  number, a decimal number, a truth value, or a date and time (kept opaque).
\<close>

datatype cell = CNone | CStr string | CInt int | CFloat real | CBool bool | CDateTime nat

datatype py_exception = ValueError | TypeError | OverflowError | IntegrityError

text \<open>
  The built-in conversions of Python that the code calls and whose text formats are
  not spelled out here, taken as parameters: \<open>str_value\<close> is \<^verbatim>\<open>str(v)\<close> of a number or
  date, \<open>int_of_str\<close> is \<^verbatim>\<open>int(s)\<close> of a text, \<open>float_of\<close> is \<^verbatim>\<open>float(v)\<close>,
  \<open>datetime_of\<close> is \<^verbatim>\<open>datetime(v)\<close>, \<open>str_lower\<close> is \<^verbatim>\<open>str.lower\<close>. A call that raises
  returns the exception.
\<close>

record py_builtins =
  str_value :: "cell \<Rightarrow> string"
  int_of_str :: "string \<Rightarrow> py_exception + int"
  float_of :: "cell \<Rightarrow> py_exception + real"
  datetime_of :: "cell \<Rightarrow> py_exception + cell"
  str_lower :: "string \<Rightarrow> string"

definition py_str :: "py_builtins \<Rightarrow> cell \<Rightarrow> string" where
  "py_str py v =
     (case v of
        CNone \<Rightarrow> ''None''
      | CStr s \<Rightarrow> s
      | CBool b \<Rightarrow> (if b then ''True'' else ''False'')
      | _ \<Rightarrow> str_value py v)"

section \<open>Presentation projector (app/api/meta.py, app/schemas.py, app/models.py)\<close>

text \<open>
  \<^verbatim>\<open>_absolute_url\<close>. The second argument is the text of \<^verbatim>\<open>request.base_url\<close>. An absent or
  empty reference is returned as it is.
\<close>

definition absolute_url :: "string option \<Rightarrow> string \<Rightarrow> string option" where
  "absolute_url value base_url =
     (case value of
        None \<Rightarrow> None
      | Some v \<Rightarrow>
          if v = [] then Some v
          else if startswith v ''http://'' \<or> startswith v ''https://'' then Some v
          else let base = py_rstrip ''/'' base_url;
                   path = (if startswith v ''/'' then v else ''/'' @ v)
               in Some (base @ path))"

text \<open>
  The resolution rule in the words of the specification: a reference with a scheme
  (a letter, then letters, digits, \<^verbatim>\<open>+\<close>, \<^verbatim>\<open>-\<close> or \<^verbatim>\<open>.\<close>, then a colon) is left as it is;
  any other is appended to the base with exactly one \<^verbatim>\<open>/\<close> between the two.
\<close>

definition is_alpha :: "char \<Rightarrow> bool" where
  "is_alpha c \<longleftrightarrow>
     (let n = (of_char c :: nat) in (97 \<le> n \<and> n \<le> 122) \<or> (65 \<le> n \<and> n \<le> 90))"

definition is_scheme_char :: "char \<Rightarrow> bool" where
  "is_scheme_char c \<longleftrightarrow>
     is_alpha c \<or> (48 \<le> (of_char c :: nat) \<and> (of_char c :: nat) \<le> 57) \<or> c \<in> set ''+-.''"

definition has_scheme :: "string \<Rightarrow> bool" where
  "has_scheme v \<longleftrightarrow>
     (case takeWhile is_scheme_char v of
        [] \<Rightarrow> False
      | c # cs \<Rightarrow> is_alpha c \<and> startswith (dropWhile is_scheme_char v) '':'')"

definition spec_absolute_url :: "string \<Rightarrow> string \<Rightarrow> string" where
  "spec_absolute_url v base_url =
     (if has_scheme v then v
      else py_rstrip ''/'' base_url @ ''/'' @ dropWhile (\<lambda>c. c = CHR ''/'') v)"

text \<open>
  A decoded JSON document, as \<^verbatim>\<open>json.loads\<close> builds it: an object is a \<^verbatim>\<open>dict\<close>, with
  its keys in insertion order. The decoder itself is a parameter: it returns \<open>None\<close>
  where \<^verbatim>\<open>json.loads\<close> raises \<^verbatim>\<open>JSONDecodeError\<close>.
\<close>

datatype json =
  JNull | JBool bool | JInt int | JFloat real | JStr string
| JArr "json list" | JObj "(string \<times> json) list"

text \<open>
  Iterating over a decoded document: the items of an array, the keys of an object, the
  characters of a text; anything else is not iterable and raises \<^verbatim>\<open>TypeError\<close>.
\<close>

fun py_iter :: "json \<Rightarrow> py_exception + json list" where
  "py_iter (JArr items) = Inr items"
| "py_iter (JObj members) = Inr (map (\<lambda>(k, _). JStr k) members)"
| "py_iter (JStr s) = Inr (map (\<lambda>c. JStr [c]) s)"
| "py_iter _ = Inl TypeError"

text \<open>\<^verbatim>\<open>[str(item) for item in xs if isinstance(item, str) and item]\<close>\<close>

fun nonempty_strings :: "json list \<Rightarrow> string list" where
  "nonempty_strings [] = []"
| "nonempty_strings (JStr s # xs) = (if s \<noteq> [] then s # nonempty_strings xs else nonempty_strings xs)"
| "nonempty_strings (_ # xs) = nonempty_strings xs"

text \<open>The argument of \<^verbatim>\<open>parse_gallery\<close>: \<^verbatim>\<open>None\<close>, a text, or a sequence.\<close>

datatype gallery_value = GNone | GText string | GSeq "json list"

definition parse_gallery ::
  "(string \<Rightarrow> json option) \<Rightarrow> gallery_value \<Rightarrow> py_exception + string list" where
  "parse_gallery json_loads value =
     (case value of
        GNone \<Rightarrow> Inr []
      | GText text \<Rightarrow>
          let stripped = py_strip text in
          if stripped = [] then Inr []
          else (case json_loads stripped of
                  None \<Rightarrow> Inr []
                | Some data \<Rightarrow>
                    (case py_iter data of
                       Inl e \<Rightarrow> Inl e
                     | Inr items \<Rightarrow> Inr (nonempty_strings items)))
      | GSeq items \<Rightarrow> Inr (nonempty_strings items))"

text \<open>The property \<^verbatim>\<open>CarcassDesignCombination.gallery_urls\<close> of app/models.py.\<close>

definition gallery_urls :: "(string \<Rightarrow> json option) \<Rightarrow> string \<Rightarrow> py_exception + string list" where
  "gallery_urls json_loads gallery_image_urls =
     (let raw = (if gallery_image_urls = [] then ''[]'' else gallery_image_urls) in
      case json_loads raw of
        None \<Rightarrow> Inr []
      | Some data \<Rightarrow>
          (case data of
             JArr items \<Rightarrow> Inr (nonempty_strings items)
           | _ \<Rightarrow> Inr []))"

text \<open>
  \<^verbatim>\<open>_absolute_gallery(parse_gallery(item.gallery_image_urls), request)\<close>, the projection of
  a stored gallery in \<^verbatim>\<open>_catalog_schema\<close>, \<^verbatim>\<open>_color_schema\<close> and \<^verbatim>\<open>_load_variations\<close>.
\<close>

definition absolute_gallery :: "string list \<Rightarrow> string \<Rightarrow> string option list" where
  "absolute_gallery urls base_url =
     map (\<lambda>url. absolute_url (Some url) base_url) (filter (\<lambda>url. url \<noteq> []) urls)"

definition project_gallery ::
  "(string \<Rightarrow> json option) \<Rightarrow> string option \<Rightarrow> string \<Rightarrow> py_exception + string option list" where
  "project_gallery json_loads stored base_url =
     (case parse_gallery json_loads (case stored of None \<Rightarrow> GNone | Some t \<Rightarrow> GText t) of
        Inl e \<Rightarrow> Inl e
      | Inr urls \<Rightarrow> Inr (absolute_gallery urls base_url))"

section \<open>Spreadsheet import (app/excel.py)\<close>

text \<open>\<^verbatim>\<open>_safe_header\<close>\<close>

definition safe_header :: "py_builtins \<Rightarrow> cell \<Rightarrow> string" where
  "safe_header py v = (if v = CNone then [] else py_strip (py_str py v))"

text \<open>
  A Python \<^verbatim>\<open>dict\<close> with its keys in insertion order: assigning to a key that is
  present replaces the value in place, assigning to a new key appends.
\<close>

fun dict_set :: "'k \<Rightarrow> 'v \<Rightarrow> ('k \<times> 'v) list \<Rightarrow> ('k \<times> 'v) list" where
  "dict_set k v [] = [(k, v)]"
| "dict_set k v ((k', v') # d) = (if k' = k then (k, v) # d else (k', v') # dict_set k v d)"

text \<open>\<^verbatim>\<open>for header, cell in zip(headers, values): row_data[header] = cell\<close>\<close>

definition row_dict :: "string list \<Rightarrow> cell list \<Rightarrow> (string \<times> cell) list" where
  "row_dict headers values = foldl (\<lambda>d (header, c). dict_set header c d) [] (zip headers values)"

text \<open>\<^verbatim>\<open>any(value not in (None, "") for value in row_data.values())\<close>\<close>

definition row_not_empty :: "(string \<times> cell) list \<Rightarrow> bool" where
  "row_not_empty row_data \<longleftrightarrow> (\<exists>(_, v) \<in> set row_data. v \<noteq> CNone \<and> v \<noteq> CStr [])"

text \<open>
  \<^verbatim>\<open>parse_xlsx\<close> on the rows of the active sheet, each the list of its cell values. The
  first row gives the headers; without a header the loop stops at the second row.
\<close>

definition parse_xlsx :: "py_builtins \<Rightarrow> cell list list \<Rightarrow> (string \<times> cell) list list" where
  "parse_xlsx py sheet =
     (case sheet of
        [] \<Rightarrow> []
      | first # rest \<Rightarrow>
          let headers = filter (\<lambda>h. h \<noteq> []) (map (safe_header py) first) in
          if headers = [] then []
          else filter row_not_empty (map (row_dict headers) rest))"

text \<open>
  What the specification asks of the import: the header of a column is its trimmed
  first cell, a column without header is ignored, and every other header maps to the
  value of its own column.
\<close>

definition spec_row_dict :: "py_builtins \<Rightarrow> cell list \<Rightarrow> cell list \<Rightarrow> (string \<times> cell) list" where
  "spec_row_dict py first values =
     foldl (\<lambda>d (h, c). dict_set h c d) []
       (filter (\<lambda>(h, _). h \<noteq> []) (zip (map (safe_header py) first) values))"

definition spec_parse_xlsx :: "py_builtins \<Rightarrow> cell list list \<Rightarrow> (string \<times> cell) list list" where
  "spec_parse_xlsx py sheet =
     (case sheet of
        [] \<Rightarrow> []
      | first # rest \<Rightarrow> filter row_not_empty (map (spec_row_dict py first) rest))"

section \<open>Bulk import (app/admin.py, ExcelImportExportMixin)\<close>

text \<open>
  \<^verbatim>\<open>column.type.python_type\<close> of a table column: the four types the code tests for, the
  date-time type of the timestamp columns, and a column type without Python type
  (\<^verbatim>\<open>NotImplementedError\<close>).
\<close>

datatype coltype = TBool | TInt | TFloat | TStr | TDateTime | TUntyped

text \<open>The words read as true; the last one is the Cyrillic word for yes, in UTF-8.\<close>

definition truthy_words :: "string list" where
  "truthy_words = [''1'', ''true'', ''yes'', ''on'', [CHR 0xD0, CHR 0xB4, CHR 0xD0, CHR 0xB0]]"

text \<open>\<^verbatim>\<open>bool(value)\<close> and \<^verbatim>\<open>int(value)\<close>; the latter truncates a decimal number towards zero.\<close>

definition py_bool :: "cell \<Rightarrow> bool" where
  "py_bool v =
     (case v of
        CNone \<Rightarrow> False
      | CStr s \<Rightarrow> s \<noteq> []
      | CInt n \<Rightarrow> n \<noteq> 0
      | CFloat r \<Rightarrow> r \<noteq> 0
      | CBool b \<Rightarrow> b
      | CDateTime _ \<Rightarrow> True)"

definition py_trunc :: "real \<Rightarrow> int" where
  "py_trunc r = (if r < 0 then - \<lfloor>- r\<rfloor> else \<lfloor>r\<rfloor>)"

definition py_int :: "py_builtins \<Rightarrow> cell \<Rightarrow> py_exception + int" where
  "py_int py v =
     (case v of
        CNone \<Rightarrow> Inl TypeError
      | CStr s \<Rightarrow> int_of_str py s
      | CInt n \<Rightarrow> Inr n
      | CFloat r \<Rightarrow> Inr (py_trunc r)
      | CBool b \<Rightarrow> Inr (if b then 1 else 0)
      | CDateTime _ \<Rightarrow> Inl TypeError)"

text \<open>
  \<^verbatim>\<open>_convert_value\<close>, branch by branch. The first test returns \<^verbatim>\<open>None\<close> for an empty cell
  whatever the column is; the test for \<^verbatim>\<open>None\<close> in the text branch is kept as the source
  writes it.
\<close>

definition convert_value :: "py_builtins \<Rightarrow> coltype \<Rightarrow> cell \<Rightarrow> py_exception + cell" where
  "convert_value py column value =
     (if value = CNone then Inr CNone
      else case column of
        TUntyped \<Rightarrow> Inr value
      | TBool \<Rightarrow>
          (case value of
             CStr s \<Rightarrow> Inr (CBool (str_lower py (py_strip s) \<in> set truthy_words))
           | _ \<Rightarrow> Inr (CBool (py_bool value)))
      | TInt \<Rightarrow>
          (case value of
             CStr s \<Rightarrow>
               if py_strip s = [] then Inr CNone
               else (case py_int py value of Inl e \<Rightarrow> Inl e | Inr n \<Rightarrow> Inr (CInt n))
           | CFloat r \<Rightarrow> Inr (CInt (py_trunc r))
           | _ \<Rightarrow> (case py_int py value of Inl e \<Rightarrow> Inl e | Inr n \<Rightarrow> Inr (CInt n)))
      | TFloat \<Rightarrow> (case float_of py value of Inl e \<Rightarrow> Inl e | Inr r \<Rightarrow> Inr (CFloat r))
      | TStr \<Rightarrow> Inr (if value = CNone then CStr [] else CStr (py_str py value))
      | TDateTime \<Rightarrow>
          (case value of
             CDateTime _ \<Rightarrow> Inr value
           | _ \<Rightarrow> datetime_of py value))"

text \<open>
  A table of the database: its rows by primary key, each row the attributes of the
  mapped object. A session works on its own view of the table. A flush sends the
  changes to the database, which may reject them (\<open>db_accepts\<close>, a parameter: the
  constraints of the table); the objects created in the session then get their
  identity. Nothing reaches the stored table before the commit.
\<close>

type_synonym obj = "(string \<times> cell) list"
type_synonym db_table = "(cell \<times> obj) list"

record session =
  identity_map :: "cell list"
  pending :: "cell list"
  flushed :: db_table
  view :: db_table

text \<open>SQLite gives a new row the largest integer key in use plus one.\<close>

definition new_rowid :: "db_table \<Rightarrow> int" where
  "new_rowid tbl = foldr (\<lambda>(k, _) m. case k of CInt n \<Rightarrow> max n m | _ \<Rightarrow> m) tbl 0 + 1"

definition session_flush :: "(db_table \<Rightarrow> bool) \<Rightarrow> session \<Rightarrow> py_exception + session" where
  "session_flush db_accepts ss =
     (if view ss = flushed ss then Inr ss
      else if db_accepts (view ss)
      then Inr (ss\<lparr>identity_map := identity_map ss @ pending ss, pending := [],
                   flushed := view ss\<rparr>)
      else Inl IntegrityError)"

text \<open>
  \<^verbatim>\<open>session.get(model, pk)\<close>: an object of the identity map is returned at once;
  otherwise the session flushes and reads the row.
\<close>

definition session_get ::
  "(db_table \<Rightarrow> bool) \<Rightarrow> session \<Rightarrow> cell \<Rightarrow> py_exception + session \<times> cell option" where
  "session_get db_accepts ss pk =
     (if pk \<in> set (identity_map ss) then Inr (ss, Some pk)
      else case session_flush db_accepts ss of
             Inl e \<Rightarrow> Inl e
           | Inr ss' \<Rightarrow>
               (case map_of (view ss') pk of
                  None \<Rightarrow> Inr (ss', None)
                | Some _ \<Rightarrow> Inr (ss'\<lparr>identity_map := pk # identity_map ss'\<rparr>, Some pk)))"

text \<open>\<^verbatim>\<open>obj = self.model(); session.add(obj)\<close> and \<^verbatim>\<open>setattr(obj, field, value)\<close>\<close>

definition session_add :: "session \<Rightarrow> session \<times> cell" where
  "session_add ss =
     (let k = CInt (new_rowid (view ss))
      in (ss\<lparr>pending := pending ss @ [k], view := view ss @ [(k, [])]\<rparr>, k))"

definition session_setattr :: "session \<Rightarrow> cell \<Rightarrow> string \<Rightarrow> cell \<Rightarrow> session" where
  "session_setattr ss k field value =
     ss\<lparr>view := map (\<lambda>(k', ob). if k' = k then (k', dict_set field value ob) else (k', ob))
                     (view ss)\<rparr>"

text \<open>
  The inner loop of \<^verbatim>\<open>_import_rows\<close>: the cells whose header names a column are
  converted in the order of the row and collected in \<^verbatim>\<open>cleaned\<close>; a conversion that
  raises ends the loop.
\<close>

fun clean_row ::
  "py_builtins \<Rightarrow> (string \<rightharpoonup> coltype) \<Rightarrow> (string \<times> cell) list \<Rightarrow> obj \<Rightarrow> py_exception + obj" where
  "clean_row py table_columns [] cleaned = Inr cleaned"
| "clean_row py table_columns ((key, value) # items) cleaned =
     (case table_columns key of
        None \<Rightarrow> clean_row py table_columns items cleaned
      | Some column \<Rightarrow>
          (case convert_value py column value of
             Inl e \<Rightarrow> Inl e
           | Inr v \<Rightarrow> clean_row py table_columns items (dict_set key v cleaned)))"

text \<open>The body of the outer loop for one row.\<close>

definition import_row ::
  "py_builtins \<Rightarrow> (db_table \<Rightarrow> bool) \<Rightarrow> (string \<rightharpoonup> coltype) \<Rightarrow> string \<Rightarrow> session \<Rightarrow>
   (string \<times> cell) list \<Rightarrow> py_exception + session" where
  "import_row py db_accepts table_columns pk_name ss row =
     (case clean_row py table_columns row [] of
        Inl e \<Rightarrow> Inl e
      | Inr cleaned \<Rightarrow>
          if cleaned = [] then Inr ss
          else
            let pk_value = (case map_of cleaned pk_name of None \<Rightarrow> CNone | Some v \<Rightarrow> v);
                remaining = filter (\<lambda>(k, _). k \<noteq> pk_name) cleaned
            in case (if pk_value \<noteq> CNone \<and> pk_value \<noteq> CStr []
                     then session_get db_accepts ss pk_value
                     else Inr (ss, None)) of
                 Inl e \<Rightarrow> Inl e
               | Inr (ss1, found) \<Rightarrow>
                   let (ss2, k) = (case found of Some k \<Rightarrow> (ss1, k) | None \<Rightarrow> session_add ss1)
                   in Inr (foldl (\<lambda>s (field, value). session_setattr s k field value)
                             ss2 remaining))"

fun import_loop ::
  "py_builtins \<Rightarrow> (db_table \<Rightarrow> bool) \<Rightarrow> (string \<rightharpoonup> coltype) \<Rightarrow> string \<Rightarrow> session \<Rightarrow>
   (string \<times> cell) list list \<Rightarrow> py_exception + session" where
  "import_loop py db_accepts table_columns pk_name ss [] = Inr ss"
| "import_loop py db_accepts table_columns pk_name ss (row # rows) =
     (case import_row py db_accepts table_columns pk_name ss row of
        Inl e \<Rightarrow> Inl e
      | Inr ss' \<Rightarrow> import_loop py db_accepts table_columns pk_name ss' rows)"

text \<open>
  \<^verbatim>\<open>_import_rows\<close>: the session is opened on the stored table, the rows are applied to
  it, and the commit at the end flushes and stores the session's view. An exception
  leaves the \<^verbatim>\<open>async with\<close> block before the commit: the session is closed and the
  stored table is the one the import started from.
\<close>

definition import_rows ::
  "py_builtins \<Rightarrow> (db_table \<Rightarrow> bool) \<Rightarrow> (string \<rightharpoonup> coltype) \<Rightarrow> string \<Rightarrow> db_table \<Rightarrow>
   (string \<times> cell) list list \<Rightarrow> (py_exception + unit) \<times> db_table" where
  "import_rows py db_accepts table_columns pk_name db rows =
     (case import_loop py db_accepts table_columns pk_name
             \<lparr>identity_map = [], pending = [], flushed = db, view = db\<rparr> rows of
        Inl e \<Rightarrow> (Inl e, db)
      | Inr ss \<Rightarrow>
          (case session_flush db_accepts ss of
             Inl e \<Rightarrow> (Inl e, db)
           | Inr ss' \<Rightarrow> (Inr (), flushed ss')))"

text \<open>\<^verbatim>\<open>handle_import_bytes\<close> on the rows of the uploaded sheet.\<close>

definition handle_import_bytes ::
  "py_builtins \<Rightarrow> (db_table \<Rightarrow> bool) \<Rightarrow> (string \<rightharpoonup> coltype) \<Rightarrow> string \<Rightarrow> db_table \<Rightarrow>
   cell list list \<Rightarrow> (py_exception + unit) \<times> db_table" where
  "handle_import_bytes py db_accepts table_columns pk_name db sheet =
     (let rows = parse_xlsx py sheet
      in if rows = [] then (Inr (), db)
         else import_rows py db_accepts table_columns pk_name db rows)"

text \<open>A small catalogue table and an import whose second row cannot be converted.\<close>

definition example_columns :: "string \<rightharpoonup> coltype" where
  "example_columns = [''id'' \<mapsto> TInt, ''name'' \<mapsto> TStr, ''price'' \<mapsto> TInt, ''active'' \<mapsto> TBool]"

definition example_table :: db_table where
  "example_table = [(CInt 1, [(''id'', CInt 1), (''name'', CStr ''Mocca''), (''price'', CInt 5)])]"

definition example_rows :: "(string \<times> cell) list list" where
  "example_rows =
     [[(''id'', CInt 1), (''price'', CInt 7)],
      [(''name'', CStr ''Latte''), (''price'', CDateTime 0)]]"

section \<open>Bundle form (app/admin.py, BundleAdmin.on_model_change)\<close>

















section \<open>Properties of the bundle matcher\<close>

lemma sql_and2_true: "sql_and2 a b = Some True \<longleftrightarrow> a = Some True \<and> b = Some True"
  by (cases "(a, b)" rule: sql_and2.cases) simp_all

lemma sql_and_true: "sql_and fs = Some True \<longleftrightarrow> (\<forall>f \<in> set fs. f = Some True)"
  unfolding sql_and_def by (induction fs) (simp_all add: sql_and2_true)

lemma sql_and_filters_iff:
  "sql_and (preview_filters q b) = Some True \<longleftrightarrow> tuple_matches q b"
  unfolding sql_and_true
  by (cases "q_fridge_id q"; cases "q_terminal_id q"; cases "q_carcass_design_combination_id q";
      cases "b_fridge_id b"; cases "b_terminal_id b"; cases "b_carcass_design_combination_id b")
     (auto simp: preview_filters_def tuple_matches_def sql_eq_def sql_is_null_def)

lemma sql_where_preview:
  "sql_where (\<lambda>b. sql_and (preview_filters q b)) bs = filter (tuple_matches q) bs"
  by (simp add: sql_where_def sql_and_filters_iff)

lemma preview_bundle_eq:
  "preview_bundle bundles q =
     (if \<not> query_valid q then Inl Unprocessable
      else case filter (tuple_matches q) bundles of
             [] \<Rightarrow> Inr \<lparr>is_exact_bundle = False, bundle_id = None,
                        custom_price = None, ozon_url = None\<rparr>
           | b # _ \<Rightarrow> Inr \<lparr>is_exact_bundle = True, bundle_id = Some (b_id b),
                           custom_price = b_custom_price b, ozon_url = b_ozon_url b\<rparr>)"
  by (simp add: preview_bundle_def sql_where_preview)

text \<open>
  Claim C1. A row passes the filter of \<^verbatim>\<open>preview_bundle\<close> exactly when its machine, cabinet,
  cabinet-colour and design-colour ids equal the query's, its fridge and terminal fields
  equal the query's optional ids as optional values (an omitted id only matches NULL, a
  supplied id only matches that id), and, when a variation id is supplied, its variation
  field holds that id. The endpoint answers an exact match exactly when some stored bundle
  passes, and the id it returns is that of a stored bundle that passes.
\<close>

theorem preview_bundle_matching_rule:
  "(sql_and (preview_filters q b) = Some True \<longleftrightarrow>
      b_coffee_machine_id b = q_coffee_machine_id q \<and>
      b_carcass_id b = q_carcass_id q \<and>
      b_carcass_color_id b = q_carcass_color_id q \<and>
      b_design_color_id b = q_design_color_id q \<and>
      b_fridge_id b = q_fridge_id q \<and>
      b_terminal_id b = q_terminal_id q \<and>
      (\<forall>v. q_carcass_design_combination_id q = Some v \<longrightarrow>
           b_carcass_design_combination_id b = Some v)) \<and>
   (query_valid q \<longrightarrow>
      (\<exists>r. preview_bundle bundles q = Inr r \<and>
           (is_exact_bundle r \<longleftrightarrow> (\<exists>b' \<in> set bundles. tuple_matches q b')) \<and>
           (\<forall>i. bundle_id r = Some i \<longrightarrow>
                (\<exists>b' \<in> set bundles. b_id b' = i \<and> tuple_matches q b'))))"
proof (intro conjI impI)
  show "sql_and (preview_filters q b) = Some True \<longleftrightarrow>
      b_coffee_machine_id b = q_coffee_machine_id q \<and>
      b_carcass_id b = q_carcass_id q \<and>
      b_carcass_color_id b = q_carcass_color_id q \<and>
      b_design_color_id b = q_design_color_id q \<and>
      b_fridge_id b = q_fridge_id q \<and>
      b_terminal_id b = q_terminal_id q \<and>
      (\<forall>v. q_carcass_design_combination_id q = Some v \<longrightarrow>
           b_carcass_design_combination_id b = Some v)"
    unfolding sql_and_filters_iff tuple_matches_def
    by (cases "q_carcass_design_combination_id q") simp_all
next
  assume v: "query_valid q"
  show "\<exists>r. preview_bundle bundles q = Inr r \<and>
           (is_exact_bundle r \<longleftrightarrow> (\<exists>b' \<in> set bundles. tuple_matches q b')) \<and>
           (\<forall>i. bundle_id r = Some i \<longrightarrow>
                (\<exists>b' \<in> set bundles. b_id b' = i \<and> tuple_matches q b'))"
  proof (cases "filter (tuple_matches q) bundles")
    case Nil
    then have "\<not> (\<exists>b' \<in> set bundles. tuple_matches q b')"
      by (simp add: filter_empty_conv)
    with Nil v show ?thesis by (simp add: preview_bundle_eq)
  next
    case (Cons b' rest)
    then have "b' \<in> set (filter (tuple_matches q) bundles)" by simp
    then have "b' \<in> set bundles" "tuple_matches q b'" by simp_all
    with Cons v show ?thesis by (auto simp: preview_bundle_eq)
  qed
qed

theorem preview_bundle_matching_rule_witness:
  "preview_bundle [spec_bundle] spec_query =
     Inr \<lparr>is_exact_bundle = True, bundle_id = Some 7, custom_price = Some 99000, ozon_url = None\<rparr> \<and>
   sql_and (preview_filters spec_query spec_bundle) = Some True \<and>
   sql_and (preview_filters (spec_query\<lparr>q_fridge_id := Some 5\<rparr>) spec_bundle) \<noteq> Some True \<and>
   preview_bundle [spec_bundle] (spec_query\<lparr>q_fridge_id := Some 5\<rparr>) =
     Inr \<lparr>is_exact_bundle = False, bundle_id = None, custom_price = None, ozon_url = None\<rparr>"
  using preview_bundle_matching_rule [of spec_query spec_bundle "[spec_bundle]"]
    preview_bundle_matching_rule [of "spec_query\<lparr>q_fridge_id := Some 5\<rparr>" spec_bundle "[spec_bundle]"]
  by (simp add: spec_query_def spec_bundle_def query_valid_def tuple_matches_def preview_bundle_eq)

lemma tuple_matches_flags:
  "tuple_matches q (b\<lparr>b_is_available := av, b_show_on_site := sh\<rparr>) = tuple_matches q b"
  by (simp add: tuple_matches_def split: option.splits)

text \<open>
  Claim C10. The answer of \<^verbatim>\<open>preview_bundle\<close> does not depend on the flags
  \<^verbatim>\<open>is_available\<close> and \<^verbatim>\<open>show_on_site\<close> of the stored bundles: rewriting them in
  any way leaves the response unchanged, and a stored bundle whose tuple matches a valid
  query makes the response an exact match whatever its flags are.
\<close>

theorem preview_bundle_ignores_flags:
  "preview_bundle (map (\<lambda>b. b\<lparr>b_is_available := av b, b_show_on_site := sh b\<rparr>) bundles) q =
     preview_bundle bundles q \<and>
   (query_valid q \<and> b \<in> set bundles \<and> tuple_matches q b \<longrightarrow>
      (\<exists>r. preview_bundle bundles q = Inr r \<and> is_exact_bundle r))"
proof (intro conjI impI)
  let ?f = "\<lambda>b. b\<lparr>b_is_available := av b, b_show_on_site := sh b\<rparr>"
  have "filter (tuple_matches q) (map ?f bundles) = map ?f (filter (tuple_matches q) bundles)"
    by (simp add: filter_map o_def tuple_matches_flags)
  then show "preview_bundle (map ?f bundles) q = preview_bundle bundles q"
    by (cases "filter (tuple_matches q) bundles") (simp_all add: preview_bundle_eq)
next
  assume h: "query_valid q \<and> b \<in> set bundles \<and> tuple_matches q b"
  then have "b \<in> set (filter (tuple_matches q) bundles)" by simp
  then obtain b' rest where "filter (tuple_matches q) bundles = b' # rest"
    by (cases "filter (tuple_matches q) bundles") auto
  with h show "\<exists>r. preview_bundle bundles q = Inr r \<and> is_exact_bundle r"
    by (simp add: preview_bundle_eq)
qed

theorem preview_bundle_ignores_flags_witness:
  "list_bundles [spec_bundle] = [] \<and> \<not> b_is_available spec_bundle \<and>
   (\<exists>r. preview_bundle [spec_bundle] spec_query = Inr r \<and> is_exact_bundle r)"
  using preview_bundle_ignores_flags [of "\<lambda>_. True" "\<lambda>_. True" "[spec_bundle]" spec_query spec_bundle]
  by (simp add: list_bundles_def sql_where_def sql_is_true_def spec_bundle_def spec_query_def
      query_valid_def tuple_matches_def)

section \<open>Properties of the variation registry\<close>

lemma filter_id_none:
  "vid \<notin> set (map cdc_id xs) \<Longrightarrow> filter (\<lambda>v. P v \<and> cdc_id v = vid) xs = []"
  by (induction xs) auto

lemma length_filter_id_le:
  "distinct (map cdc_id xs) \<Longrightarrow> length (filter (\<lambda>v. P v \<and> cdc_id v = vid) xs) \<le> 1"
  by (induction xs) (auto simp: filter_id_none)

lemma length_filter_id_eq:
  "distinct (map cdc_id xs) \<Longrightarrow> v \<in> set xs \<Longrightarrow> P v \<Longrightarrow> cdc_id v = vid \<Longrightarrow>
   length (filter (\<lambda>v. P v \<and> cdc_id v = vid) xs) = 1"
proof (induction xs)
  case Nil
  then show ?case by simp
next
  case (Cons x xs)
  show ?case
  proof (cases "cdc_id x = vid")
    case True
    with Cons.prems have "vid \<notin> set (map cdc_id xs)" by auto
    then have "filter (\<lambda>v. P v \<and> cdc_id v = vid) xs = []" by (rule filter_id_none)
    moreover from True Cons.prems have "x = v"
      by (cases "v = x") (auto simp: image_iff)
    ultimately show ?thesis using True Cons.prems by simp
  next
    case False
    with Cons show ?thesis by auto
  qed
qed

lemma combinations_priv_set_default:
  "map cdc_id (combinations (priv_set_default_variation s c vid)) = map cdc_id (combinations s)"
  "map cdc_carcass_id (combinations (priv_set_default_variation s c vid)) =
     map cdc_carcass_id (combinations s)"
  "next_combination_id (priv_set_default_variation s c vid) = next_combination_id s"
  by (simp_all add: priv_set_default_variation_def o_def)

lemma keys_fresh_priv_set_default:
  "keys_fresh s \<Longrightarrow> keys_fresh (priv_set_default_variation s c vid)"
  unfolding keys_fresh_def
  by (simp add: combinations_priv_set_default)
     (auto simp: priv_set_default_variation_def)

lemma default_count_priv_set_default:
  "default_count (priv_set_default_variation s c vid) c' =
     (if c' = c
      then length (filter (\<lambda>v. cdc_carcass_id v = c \<and> cdc_id v = vid) (combinations s))
      else default_count s c')"
  by (auto simp: default_count_def priv_set_default_variation_def filter_map o_def
      intro!: arg_cong [where f = length] filter_cong)


lemma find_id_Some:
  "find (\<lambda>combo. cdc_id combo = vid) xs = Some v \<Longrightarrow> v \<in> set xs \<and> cdc_id v = vid"
  by (induction xs) (auto split: if_splits)

lemma set_default_step:
  assumes "registry_inv s"
  shows "registry_inv (snd (set_default_variation admin s carcass_id vid)) \<and>
         default_count (snd (set_default_variation admin s carcass_id vid)) c =
           (if carcass_id = c \<and>
               fst (set_default_variation admin s carcass_id vid) = Inr VariationUpdated
            then 1 else default_count s c)"
proof (cases "admin \<and> (\<exists>v. find (\<lambda>combo. cdc_id combo = vid) (combinations s) = Some v \<and>
                 cdc_carcass_id v = carcass_id)")
  case False
  then have "set_default_variation admin s carcass_id vid = (Inl Forbidden, s) \<or>
             set_default_variation admin s carcass_id vid = (Inl (NotFound ''Variation not found''), s)"
    by (auto simp: set_default_variation_def split: option.splits)
  with assms show ?thesis by auto
next
  case True
  then obtain v where v: "find (\<lambda>combo. cdc_id combo = vid) (combinations s) = Some v"
      "cdc_carcass_id v = carcass_id" and adm: admin
    by blast
  have res: "set_default_variation admin s carcass_id vid =
      (Inr VariationUpdated, priv_set_default_variation s carcass_id vid)"
    using v adm by (simp add: set_default_variation_def)
  from assms have d: "distinct (map cdc_id (combinations s))"
    by (simp add: registry_inv_def keys_fresh_def)
  from v have "v \<in> set (combinations s)" "cdc_id v = vid"
    using find_id_Some by blast+
  with d v(2) have one: "length (filter (\<lambda>v. cdc_carcass_id v = carcass_id \<and> cdc_id v = vid)
      (combinations s)) = 1"
    by (intro length_filter_id_eq [where v = v]) simp_all
  have cnt: "\<And>c'. default_count (priv_set_default_variation s carcass_id vid) c' =
      (if c' = carcass_id then 1 else default_count s c')"
    by (simp add: default_count_priv_set_default one)
  from assms have "keys_fresh (priv_set_default_variation s carcass_id vid)"
    by (simp add: registry_inv_def keys_fresh_priv_set_default)
  moreover have "\<forall>c'. default_count (priv_set_default_variation s carcass_id vid) c' \<le> 1"
    using assms by (simp add: cnt registry_inv_def)
  ultimately show ?thesis
    by (auto simp: res registry_inv_def cnt)
qed


lemma duplicate_filter_iff:
  "filter (\<lambda>combo. cdc_carcass_id combo = c \<and> cdc_carcass_color_id combo = a \<and>
                    cdc_design_color_id combo = b) (combinations s) \<noteq> [] \<longleftrightarrow> registered s c a b"
  by (auto simp: registered_def filter_empty_conv)

lemma create_variation_rejected:
  "\<not> create_ok admin s c f \<Longrightarrow>
     snd (create_variation admin s c f) = s \<and>
     fst (create_variation admin s c f) \<noteq> Inr VariationCreated"
  unfolding create_variation_def duplicate_filter_iff create_ok_def
  by (auto split: option.splits)

lemma create_variation_accepted:
  assumes "create_ok admin s c f"
  shows "\<exists>combination.
           cdc_id combination = next_combination_id s \<and>
           cdc_carcass_id combination = c \<and>
           cdc_carcass_color_id combination = f_carcass_color_id f \<and>
           cdc_design_color_id combination = f_design_color_id f \<and>
           cdc_is_default combination = f_is_default f \<and>
           create_variation admin s c f =
             (Inr VariationCreated,
              if f_is_default f
              then priv_set_default_variation
                     (s\<lparr>combinations := combinations s @ [combination],
                        next_combination_id := next_combination_id s + 1\<rparr>) c
                     (next_combination_id s)
              else s\<lparr>combinations := combinations s @ [combination],
                     next_combination_id := next_combination_id s + 1\<rparr>)"
proof -
  from assms obtain cn an bn where
    "admin" "carcasses s c = Some cn" "carcass_colors s (f_carcass_color_id f) = Some an"
    "design_colors s (f_design_color_id f) = Some bn"
    "\<not> registered s c (f_carcass_color_id f) (f_design_color_id f)"
    by (auto simp: create_ok_def)
  then show ?thesis
    unfolding create_variation_def duplicate_filter_iff
    by (intro exI [where x = "\<lparr>cdc_id = next_combination_id s, cdc_carcass_id = c,
          cdc_carcass_color_id = f_carcass_color_id f,
          cdc_design_color_id = f_design_color_id f,
          cdc_name = combination_name cn an bn,
          cdc_main_image_url = f_main_url f,
          cdc_gallery_image_urls = f_gallery_json f,
          cdc_active = True, cdc_is_default = f_is_default f\<rparr>"])
       (simp add: Let_def)
qed

lemma keys_fresh_append:
  "keys_fresh s \<Longrightarrow> cdc_id combination = next_combination_id s \<Longrightarrow>
   keys_fresh (s\<lparr>combinations := combinations s @ [combination],
                 next_combination_id := next_combination_id s + 1\<rparr>)"
  by (fastforce simp: keys_fresh_def)

lemma default_count_append:
  "default_count (s\<lparr>combinations := combinations s @ [combination],
                    next_combination_id := n\<rparr>) c' =
     default_count s c' +
       (if cdc_carcass_id combination = c' \<and> cdc_is_default combination then 1 else 0)"
  by (simp add: default_count_def)

lemma create_step:
  assumes inv: "registry_inv s"
  shows "registry_inv (snd (create_variation admin s carcass_id f)) \<and>
         default_count (snd (create_variation admin s carcass_id f)) c =
           (if carcass_id = c \<and> f_is_default f \<and>
               fst (create_variation admin s carcass_id f) = Inr VariationCreated
            then 1 else default_count s c)"
proof (cases "create_ok admin s carcass_id f")
  case False
  from create_variation_rejected [OF False] inv show ?thesis by simp
next
  case True
  from create_variation_accepted [OF True] obtain combination where
    k: "cdc_id combination = next_combination_id s" "cdc_carcass_id combination = carcass_id"
       "cdc_is_default combination = f_is_default f" and
    res: "create_variation admin s carcass_id f =
             (Inr VariationCreated,
              if f_is_default f
              then priv_set_default_variation
                     (s\<lparr>combinations := combinations s @ [combination],
                        next_combination_id := next_combination_id s + 1\<rparr>) carcass_id
                     (next_combination_id s)
              else s\<lparr>combinations := combinations s @ [combination],
                     next_combination_id := next_combination_id s + 1\<rparr>)"
    by blast
  let ?s1 = "s\<lparr>combinations := combinations s @ [combination],
               next_combination_id := next_combination_id s + 1\<rparr>"
  from inv k have fresh1: "keys_fresh ?s1"
    by (simp add: registry_inv_def keys_fresh_append)
  show ?thesis
  proof (cases "f_is_default f")
    case False
    have "\<And>c'. default_count ?s1 c' = default_count s c'"
      using False k by (simp add: default_count_append)
    with inv fresh1 False show ?thesis
      by (simp add: res registry_inv_def)
  next
    case True
    let ?s2 = "priv_set_default_variation ?s1 carcass_id (next_combination_id s)"
    from fresh1 have d: "distinct (map cdc_id (combinations ?s1))"
      by (simp add: keys_fresh_def)
    have one: "length (filter (\<lambda>v. cdc_carcass_id v = carcass_id \<and>
        cdc_id v = next_combination_id s) (combinations ?s1)) = 1"
      using d k by (intro length_filter_id_eq [where v = combination]) simp_all
    have cnt: "\<And>c'. default_count ?s2 c' = (if c' = carcass_id then 1 else default_count s c')"
      using k one by (simp add: default_count_priv_set_default default_count_append)
    have "keys_fresh ?s2" using fresh1 by (rule keys_fresh_priv_set_default)
    moreover have "\<forall>c'. default_count ?s2 c' \<le> 1"
      using inv by (simp add: cnt registry_inv_def)
    ultimately show ?thesis using True
      by (auto simp: res registry_inv_def cnt)
  qed
qed

lemma registry_step_inv:
  assumes "registry_inv s"
  shows "registry_inv (snd (registry_step s x)) \<and>
         default_count (snd (registry_step s x)) c =
           (if sets_default s x c then 1 else default_count s c)"
proof (cases x)
  case (Register admin cid f)
  with create_step [OF assms, of admin cid f c] show ?thesis by simp
next
  case (SetDefault admin cid vid)
  with set_default_step [OF assms, of admin cid vid c] show ?thesis by simp
qed

lemma registry_run_count:
  "registry_inv s \<Longrightarrow>
     registry_inv (registry_run s ops) \<and>
     default_count (registry_run s ops) c =
       (if default_ever_set s ops c then 1 else default_count s c)"
proof (induction ops arbitrary: s)
  case Nil
  then show ?case by simp
next
  case (Cons x xs)
  from registry_step_inv [OF Cons.prems, of x c]
  have i: "registry_inv (snd (registry_step s x))"
    and n: "default_count (snd (registry_step s x)) c =
           (if sets_default s x c then 1 else default_count s c)"
    by simp_all
  from Cons.IH [OF i] n show ?case by simp
qed

lemma registry_inv_empty: "combinations s = [] \<Longrightarrow> registry_inv s"
  by (simp add: registry_inv_def keys_fresh_def default_count_def)

text \<open>
  Claim C2. Starting from a store without variations, after any run of registrations
  (with or without \<^verbatim>\<open>is_default\<close>) and \<^verbatim>\<open>set_default\<close> requests, accepted or rejected, the
  number of a cabinet's variations marked default is 1 if some request of the run set a
  default for that cabinet, and 0 otherwise.
\<close>

theorem default_count_after_run:
  "combinations s = [] \<Longrightarrow>
     default_count (registry_run s ops) c = (if default_ever_set s ops c then 1 else 0)"
  using registry_run_count [OF registry_inv_empty, of s ops c]
  by (simp add: default_count_def)

theorem default_count_after_run_witness:
  "combinations example_store = [] \<and> default_count (registry_run example_store run_ops) 1 = 1"
  using default_count_after_run [of example_store run_ops 1]
  by (simp add: run_ops_def example_store_def example_form_def create_variation_def
      set_default_variation_def priv_set_default_variation_def Let_def)

lemma bex_map_invariant:
  "(\<And>x. P (g x) = P x) \<Longrightarrow> (\<exists>y \<in> set (map g xs). P y) = (\<exists>x \<in> set xs. P x)"
  by (induction xs) auto

lemma registered_priv_set_default:
  "registered (priv_set_default_variation s c vid) c' a b = registered s c' a b"
proof -
  have eq: "combinations (priv_set_default_variation s c vid) =
      map (\<lambda>combo. if cdc_carcass_id combo = c
                    then combo\<lparr>cdc_is_default := (cdc_id combo = vid)\<rparr> else combo)
          (combinations s)"
    by (simp add: priv_set_default_variation_def)
  show ?thesis
    unfolding registered_def eq by (rule bex_map_invariant) simp
qed

lemma registered_append:
  "registered (s\<lparr>combinations := combinations s @ [x], next_combination_id := n\<rparr>) c' a b \<longleftrightarrow>
     registered s c' a b \<or>
     (cdc_carcass_id x = c' \<and> cdc_carcass_color_id x = a \<and> cdc_design_color_id x = b)"
  by (auto simp: registered_def)

lemma catalogues_priv_set_default:
  "carcasses (priv_set_default_variation s c vid) = carcasses s"
  "carcass_colors (priv_set_default_variation s c vid) = carcass_colors s"
  "design_colors (priv_set_default_variation s c vid) = design_colors s"
  by (simp_all add: priv_set_default_variation_def)

lemma create_variation_effect:
  assumes "create_ok admin s c f"
  shows "fst (create_variation admin s c f) = Inr VariationCreated"
    and "carcasses (snd (create_variation admin s c f)) = carcasses s"
    and "carcass_colors (snd (create_variation admin s c f)) = carcass_colors s"
    and "design_colors (snd (create_variation admin s c f)) = design_colors s"
    and "registered (snd (create_variation admin s c f)) c' a b \<longleftrightarrow>
           registered s c' a b \<or>
           (c' = c \<and> a = f_carcass_color_id f \<and> b = f_design_color_id f)"
proof -
  from create_variation_accepted [OF assms] obtain combination where
    k: "cdc_carcass_id combination = c" "cdc_carcass_color_id combination = f_carcass_color_id f"
       "cdc_design_color_id combination = f_design_color_id f" and
    res: "create_variation admin s c f =
             (Inr VariationCreated,
              if f_is_default f
              then priv_set_default_variation
                     (s\<lparr>combinations := combinations s @ [combination],
                        next_combination_id := next_combination_id s + 1\<rparr>) c
                     (next_combination_id s)
              else s\<lparr>combinations := combinations s @ [combination],
                     next_combination_id := next_combination_id s + 1\<rparr>)"
    by blast
  show "fst (create_variation admin s c f) = Inr VariationCreated"
    by (simp add: res)
  show "carcasses (snd (create_variation admin s c f)) = carcasses s"
    by (simp add: res catalogues_priv_set_default)
  show "carcass_colors (snd (create_variation admin s c f)) = carcass_colors s"
    by (simp add: res catalogues_priv_set_default)
  show "design_colors (snd (create_variation admin s c f)) = design_colors s"
    by (simp add: res catalogues_priv_set_default)
  show "registered (snd (create_variation admin s c f)) c' a b \<longleftrightarrow>
           registered s c' a b \<or>
           (c' = c \<and> a = f_carcass_color_id f \<and> b = f_design_color_id f)"
    using k by (auto simp: res registered_priv_set_default registered_append)
qed

lemma create_variation_is_duplicate:
  "admin \<Longrightarrow> carcasses s c \<noteq> None \<Longrightarrow>
   registered s c (f_carcass_color_id f) (f_design_color_id f) \<Longrightarrow>
   create_variation admin s c f = (Inr VariationErrorDuplicate, s)"
  unfolding create_variation_def duplicate_filter_iff by auto

text \<open>
  Claim C3. For an administrator and an existing cabinet, registering a triple that is
  already registered for the cabinet is answered with the duplicate redirect and leaves
  the store as it was; so a registration that was created, repeated with the same colour
  pair, is rejected as a duplicate. With \<open>a \<noteq> b\<close>, both colours present in both colour
  tables and neither \<open>(c, a, b)\<close> nor \<open>(c, b, a)\<close> registered, registering \<open>(c, a, b)\<close> and
  then \<open>(c, b, a)\<close> creates both.
\<close>

theorem register_duplicate_rejected:
  "(admin \<and> carcasses s c \<noteq> None \<and>
    registered s c (f_carcass_color_id f) (f_design_color_id f) \<longrightarrow>
      create_variation admin s c f = (Inr VariationErrorDuplicate, s)) \<and>
   (create_variation admin s c f = (Inr VariationCreated, s1) \<and>
    f_carcass_color_id f' = f_carcass_color_id f \<and>
    f_design_color_id f' = f_design_color_id f \<longrightarrow>
      create_variation admin s1 c f' = (Inr VariationErrorDuplicate, s1)) \<and>
   (a \<noteq> b \<and> carcasses s c \<noteq> None \<and>
    carcass_colors s a \<noteq> None \<and> carcass_colors s b \<noteq> None \<and>
    design_colors s a \<noteq> None \<and> design_colors s b \<noteq> None \<and>
    \<not> registered s c a b \<and> \<not> registered s c b a \<and>
    f_carcass_color_id f1 = a \<and> f_design_color_id f1 = b \<and>
    f_carcass_color_id f2 = b \<and> f_design_color_id f2 = a \<longrightarrow>
      (\<exists>s1 s2. create_variation True s c f1 = (Inr VariationCreated, s1) \<and>
               create_variation True s1 c f2 = (Inr VariationCreated, s2) \<and>
               registered s2 c a b \<and> registered s2 c b a))"
proof (intro conjI impI)
  assume "admin \<and> carcasses s c \<noteq> None \<and>
    registered s c (f_carcass_color_id f) (f_design_color_id f)"
  then show "create_variation admin s c f = (Inr VariationErrorDuplicate, s)"
    by (simp add: create_variation_is_duplicate)
next
  assume h: "create_variation admin s c f = (Inr VariationCreated, s1) \<and>
    f_carcass_color_id f' = f_carcass_color_id f \<and>
    f_design_color_id f' = f_design_color_id f"
  then have ok: "create_ok admin s c f"
    using create_variation_rejected [of admin s c f] by auto
  from h have s1: "snd (create_variation admin s c f) = s1" by simp
  from ok have "admin" "carcasses s c \<noteq> None" by (simp_all add: create_ok_def)
  moreover have "carcasses s1 = carcasses s"
    using create_variation_effect(2) [OF ok] by (simp add: s1)
  moreover have "registered s1 c (f_carcass_color_id f') (f_design_color_id f')"
    using create_variation_effect(5) [OF ok, of c "f_carcass_color_id f" "f_design_color_id f"] h
    by (simp add: s1)
  ultimately show "create_variation admin s1 c f' = (Inr VariationErrorDuplicate, s1)"
    by (simp add: create_variation_is_duplicate)
next
  assume h: "a \<noteq> b \<and> carcasses s c \<noteq> None \<and>
    carcass_colors s a \<noteq> None \<and> carcass_colors s b \<noteq> None \<and>
    design_colors s a \<noteq> None \<and> design_colors s b \<noteq> None \<and>
    \<not> registered s c a b \<and> \<not> registered s c b a \<and>
    f_carcass_color_id f1 = a \<and> f_design_color_id f1 = b \<and>
    f_carcass_color_id f2 = b \<and> f_design_color_id f2 = a"
  let ?s1 = "snd (create_variation True s c f1)"
  let ?s2 = "snd (create_variation True ?s1 c f2)"
  from h have ok1: "create_ok True s c f1" by (simp add: create_ok_def)
  note e1 = create_variation_effect [OF ok1]
  from h have "\<not> registered ?s1 c b a" by (simp add: e1(5))
  with h have ok2: "create_ok True ?s1 c f2" by (simp add: create_ok_def e1)
  note e2 = create_variation_effect [OF ok2]
  have "create_variation True s c f1 = (Inr VariationCreated, ?s1)"
    using e1(1) by (simp add: prod_eq_iff)
  moreover have "create_variation True ?s1 c f2 = (Inr VariationCreated, ?s2)"
    using e2(1) by (simp add: prod_eq_iff)
  moreover have "registered ?s2 c a b" "registered ?s2 c b a"
    using h by (simp_all add: e2(5) e1(5))
  ultimately show "\<exists>s1 s2. create_variation True s c f1 = (Inr VariationCreated, s1) \<and>
               create_variation True s1 c f2 = (Inr VariationCreated, s2) \<and>
               registered s2 c a b \<and> registered s2 c b a"
    by blast
qed

theorem register_duplicate_rejected_witness:
  "carcasses (snd (create_variation True example_store 1 (example_form 1 2 False))) 1 \<noteq> None \<and>
   registered (snd (create_variation True example_store 1 (example_form 1 2 False))) 1 1 2 \<and>
   create_variation True
     (snd (create_variation True example_store 1 (example_form 1 2 False))) 1
     (example_form 1 2 True) =
     (Inr VariationErrorDuplicate,
      snd (create_variation True example_store 1 (example_form 1 2 False))) \<and>
   (\<exists>s1 s2. create_variation True example_store 1 (example_form 1 2 False) =
               (Inr VariationCreated, s1) \<and>
            create_variation True s1 1 (example_form 2 1 False) = (Inr VariationCreated, s2) \<and>
            registered s2 1 1 2 \<and> registered s2 1 2 1)"
  using register_duplicate_rejected [of True
      "snd (create_variation True example_store 1 (example_form 1 2 False))" 1
      "example_form 1 2 True" example_store "example_form 1 2 True" 0 0
      "example_form 1 2 False" "example_form 2 1 False"]
    register_duplicate_rejected [of True example_store 1 "example_form 1 2 False"
      "snd (create_variation True example_store 1 (example_form 1 2 False))"
      "example_form 1 2 True" 1 2 "example_form 1 2 False" "example_form 2 1 False"]
  by (simp add: example_store_def example_form_def registered_def create_variation_def Let_def)

section \<open>Properties of the projector and of the spreadsheet parser\<close>

lemma py_rstrip_no_trailing:
  "py_rstrip chars s = [] \<or> last (py_rstrip chars s) \<notin> set chars"
proof (cases "dropWhile (\<lambda>c. c \<in> set chars) (rev s)")
  case Nil
  then show ?thesis by (simp add: py_rstrip_def)
next
  case (Cons x xs)
  then have "\<not> (x \<in> set chars)"
    using hd_dropWhile [of "\<lambda>c. c \<in> set chars" "rev s"] by simp
  with Cons show ?thesis by (simp add: py_rstrip_def)
qed

lemma startswith_slash: "startswith v ''/'' \<longleftrightarrow> (\<exists>w. v = CHR ''/'' # w)"
  by (cases v) (auto simp: startswith_def)

lemma startswith_slash2: "startswith v ''//'' \<longleftrightarrow> (\<exists>w. v = CHR ''/'' # CHR ''/'' # w)"
  by (cases v; cases "tl v") (auto simp: startswith_def)

text \<open>
  Claim C9, as amended. An absent or empty reference is returned as it is, and so is a
  reference that starts with \<^verbatim>\<open>http://\<close> or \<^verbatim>\<open>https://\<close>. Any other reference gives the
  base URL without its trailing slashes, one \<^verbatim>\<open>/\<close>, and the reference without its first
  character when that is a \<^verbatim>\<open>/\<close>; the part before the \<^verbatim>\<open>/\<close> does not end with a slash,
  and the part after it does not start with one unless the reference starts with \<^verbatim>\<open>//\<close>.
\<close>

theorem absolute_url_resolution:
  "absolute_url None base_url = None \<and>
   absolute_url (Some []) base_url = Some [] \<and>
   (v \<noteq> [] \<and> (startswith v ''http://'' \<or> startswith v ''https://'') \<longrightarrow>
      absolute_url (Some v) base_url = Some v) \<and>
   (v \<noteq> [] \<and> \<not> startswith v ''http://'' \<and> \<not> startswith v ''https://'' \<longrightarrow>
      absolute_url (Some v) base_url =
        Some (py_rstrip ''/'' base_url @ ''/'' @ (if startswith v ''/'' then tl v else v)) \<and>
      (py_rstrip ''/'' base_url = [] \<or> last (py_rstrip ''/'' base_url) \<noteq> CHR ''/'') \<and>
      (\<not> startswith v ''//'' \<longrightarrow>
         \<not> startswith (if startswith v ''/'' then tl v else v) ''/''))"
proof (intro conjI impI)
  show "py_rstrip ''/'' base_url = [] \<or> last (py_rstrip ''/'' base_url) \<noteq> CHR ''/''"
    using py_rstrip_no_trailing [of "''/''" base_url] by simp
next
  assume "v \<noteq> [] \<and> \<not> startswith v ''http://'' \<and> \<not> startswith v ''https://''"
  then show "absolute_url (Some v) base_url =
        Some (py_rstrip ''/'' base_url @ ''/'' @ (if startswith v ''/'' then tl v else v))"
    by (auto simp: absolute_url_def Let_def startswith_slash)
next
  assume "\<not> startswith v ''//''"
  then show "\<not> startswith (if startswith v ''/'' then tl v else v) ''/''"
    by (auto simp: startswith_slash startswith_slash2)
qed (simp_all add: absolute_url_def)

theorem absolute_url_resolution_witness:
  "absolute_url (Some ''https://cdn/a.jpg'') ''http://h/'' = Some ''https://cdn/a.jpg'' \<and>
   absolute_url (Some ''uploads/a.jpg'') ''http://h/'' = Some ''http://h/uploads/a.jpg'' \<and>
   absolute_url (Some ''/uploads/a.jpg'') ''http://h/'' = Some ''http://h/uploads/a.jpg''"
  using absolute_url_resolution [of "''http://h/''" "''https://cdn/a.jpg''"]
    absolute_url_resolution [of "''http://h/''" "''uploads/a.jpg''"]
    absolute_url_resolution [of "''http://h/''" "''/uploads/a.jpg''"]
  by (simp add: startswith_def py_rstrip_def)

text \<open>
  Claim C9 as stated fails on the code: a reference with the scheme \<^verbatim>\<open>ftp\<close> is not
  returned unchanged but appended to the base, and a reference that starts with \<^verbatim>\<open>//\<close>
  ends up with two separators after the base.
\<close>

theorem absolute_url_counterexample:
  "has_scheme ''ftp://cdn/a.jpg'' \<and>
   absolute_url (Some ''ftp://cdn/a.jpg'') ''http://h/'' \<noteq>
     Some (spec_absolute_url ''ftp://cdn/a.jpg'' ''http://h/'') \<and>
   \<not> has_scheme ''//a.jpg'' \<and>
   absolute_url (Some ''//a.jpg'') ''http://h/'' = Some ''http://h//a.jpg'' \<and>
   absolute_url (Some ''//a.jpg'') ''http://h/'' \<noteq>
     Some (spec_absolute_url ''//a.jpg'' ''http://h/'')"
  by (simp add: absolute_url_def spec_absolute_url_def has_scheme_def is_scheme_char_def
      is_alpha_def startswith_def py_rstrip_def Let_def)

text \<open>
  Claim C5 on a sheet whose second header cell is empty: \<^verbatim>\<open>parse_xlsx\<close> drops the empty
  header from the header list but pairs the remaining headers with the cells from the
  left, so \<^verbatim>\<open>name\<close> receives the value under the empty header and the value of its own
  column is lost; the claim asks for the value of its own column.
\<close>

theorem parse_xlsx_blank_header:
  "parse_xlsx py [[CStr ''id'', CNone, CStr ''name''], [CInt 1, CStr ''x'', CStr ''Foo'']] =
     [[(''id'', CInt 1), (''name'', CStr ''x'')]] \<and>
   spec_parse_xlsx py [[CStr ''id'', CNone, CStr ''name''], [CInt 1, CStr ''x'', CStr ''Foo'']] =
     [[(''id'', CInt 1), (''name'', CStr ''Foo'')]]"
  by (simp add: parse_xlsx_def spec_parse_xlsx_def spec_row_dict_def safe_header_def py_str_def
      py_strip_def py_isspace_def row_dict_def row_not_empty_def)

text \<open>
  Claim C6 on a stored gallery that is valid JSON but not a collection (\<^verbatim>\<open>null\<close>, a truth
  value or a number): \<^verbatim>\<open>parse_gallery\<close> iterates over the decoded value and raises
  \<^verbatim>\<open>TypeError\<close>, which the projection (\<open>project_gallery\<close>) passes on to the caller;
  the claim asks for the empty list.
\<close>

theorem parse_gallery_scalar_raises:
  "py_strip text \<noteq> [] \<Longrightarrow> json_loads (py_strip text) = Some d \<Longrightarrow>
   d = JNull \<or> d \<in> range JBool \<or> d \<in> range JInt \<or> d \<in> range JFloat \<Longrightarrow>
   parse_gallery json_loads (GText text) = Inl TypeError \<and>
   project_gallery json_loads (Some text) base_url = Inl TypeError"
  by (auto simp: parse_gallery_def project_gallery_def Let_def)

theorem parse_gallery_scalar_raises_witness:
  "parse_gallery (\<lambda>t. if t = ''5'' then Some (JInt 5) else None) (GText ''5'') = Inl TypeError \<and>
   gallery_urls (\<lambda>t. if t = ''5'' then Some (JInt 5) else None) ''5'' = Inr []"
  using parse_gallery_scalar_raises [of "''5''" "\<lambda>t. if t = ''5'' then Some (JInt 5) else None"
      "JInt 5" "''http://h/''"]
  by (simp add: py_strip_def py_isspace_def gallery_urls_def)

lemma gallery_urls_total: "\<exists>urls. gallery_urls json_loads stored = Inr urls"
  by (simp add: gallery_urls_def Let_def split: option.splits json.splits)

section \<open>Properties of the bulk import\<close>

lemma clean_row_raises:
  "(key, value) \<in> set row \<Longrightarrow> table_columns key = Some column \<Longrightarrow>
   convert_value py column value = Inl e \<Longrightarrow>
   \<exists>e'. clean_row py table_columns row cleaned = Inl e'"
proof (induction row arbitrary: cleaned)
  case Nil
  then show ?case by simp
next
  case (Cons item items)
  obtain k v where item: "item = (k, v)" by (cases item)
  show ?case
  proof (cases "(key, value) = item")
    case True
    with item Cons.prems show ?thesis by simp
  next
    case False
    with Cons.prems have "(key, value) \<in> set items" by simp
    from Cons.IH [OF this Cons.prems(2,3)] show ?thesis
      by (simp add: item split: option.splits sum.splits)
  qed
qed

lemma import_loop_raises:
  "row \<in> set rows \<Longrightarrow> clean_row py table_columns row [] = Inl e \<Longrightarrow>
   \<exists>e'. import_loop py db_accepts table_columns pk_name ss rows = Inl e'"
proof (induction rows arbitrary: ss)
  case Nil
  then show ?case by simp
next
  case (Cons r rs)
  show ?case
  proof (cases "import_row py db_accepts table_columns pk_name ss r")
    case (Inl e0)
    then show ?thesis by simp
  next
    case (Inr ss')
    have "row \<noteq> r"
    proof
      assume "row = r"
      with Cons.prems(2) have "import_row py db_accepts table_columns pk_name ss r = Inl e"
        by (simp add: import_row_def)
      with Inr show False by simp
    qed
    with Cons.prems have "row \<in> set rs" by simp
    from Cons.IH [OF this Cons.prems(2)] Inr show ?thesis by simp
  qed
qed

lemma import_rows_error_keeps_db:
  "fst (import_rows py db_accepts table_columns pk_name db rows) = Inl e \<Longrightarrow>
   snd (import_rows py db_accepts table_columns pk_name db rows) = db"
  by (simp add: import_rows_def split: sum.splits)

text \<open>
  Claim C4. If converting some cell of some row to the type of its column raises, the
  import ends with an exception and the stored table is the one the import started
  from; and whenever the import ends with an exception, whatever raised it, the stored
  table is unchanged: no row is applied in part.
\<close>

theorem import_rows_all_or_nothing:
  "((\<exists>row \<in> set rows. \<exists>(key, value) \<in> set row. \<exists>column e.
        table_columns key = Some column \<and> convert_value py column value = Inl e) \<longrightarrow>
      (\<exists>e. import_rows py db_accepts table_columns pk_name db rows = (Inl e, db))) \<and>
   (\<forall>e db'. import_rows py db_accepts table_columns pk_name db rows = (Inl e, db') \<longrightarrow> db' = db)"
proof (intro conjI impI allI)
  assume "\<exists>row \<in> set rows. \<exists>(key, value) \<in> set row. \<exists>column e.
        table_columns key = Some column \<and> convert_value py column value = Inl e"
  then obtain row key "value" column e where
    r: "row \<in> set rows" "(key, value) \<in> set row" "table_columns key = Some column"
       "convert_value py column value = Inl e"
    by blast
  from clean_row_raises [of key "value" row table_columns column py e "[]", OF r(2,3,4)]
  obtain e1 where
    "clean_row py table_columns row [] = Inl e1" by blast
  from import_loop_raises [OF r(1) this] obtain e2 where
    "import_loop py db_accepts table_columns pk_name
       \<lparr>identity_map = [], pending = [], flushed = db, view = db\<rparr> rows = Inl e2"
    by blast
  then show "\<exists>e. import_rows py db_accepts table_columns pk_name db rows = (Inl e, db)"
    by (simp add: import_rows_def)
next
  fix e db'
  assume "import_rows py db_accepts table_columns pk_name db rows = (Inl e, db')"
  then show "db' = db"
    using import_rows_error_keeps_db [of py db_accepts table_columns pk_name db rows e] by simp
qed

theorem import_rows_all_or_nothing_witness:
  "\<forall>py db_accepts.
     clean_row py example_columns (example_rows ! 0) [] = Inr [(''id'', CInt 1), (''price'', CInt 7)] \<and>
     convert_value py TInt (CDateTime 0) = Inl TypeError \<and>
     import_rows py db_accepts example_columns ''id'' example_table example_rows =
       (Inl TypeError, example_table)"
proof (intro allI)
  fix py :: py_builtins and db_accepts :: "db_table \<Rightarrow> bool"
  have c: "convert_value py TInt (CDateTime 0) = Inl TypeError"
    by (simp add: convert_value_def py_int_def)
  have r1: "clean_row py example_columns (example_rows ! 0) [] =
      Inr [(''id'', CInt 1), (''price'', CInt 7)]"
    by (simp add: example_rows_def example_columns_def convert_value_def py_int_def)
  have r2: "clean_row py example_columns [(''name'', CStr ''Latte''), (''price'', CDateTime 0)] [] =
      Inl TypeError"
    by (simp add: example_columns_def convert_value_def py_int_def py_str_def)
  have g: "session_get db_accepts
      \<lparr>identity_map = [], pending = [], flushed = example_table, view = example_table\<rparr> (CInt 1) =
      Inr (\<lparr>identity_map = [CInt 1], pending = [], flushed = example_table, view = example_table\<rparr>,
           Some (CInt 1))"
    by (simp add: session_get_def session_flush_def example_table_def)
  have "import_loop py db_accepts example_columns ''id''
      \<lparr>identity_map = [], pending = [], flushed = example_table, view = example_table\<rparr>
      example_rows = Inl TypeError"
    using r1 r2 g by (simp add: example_rows_def import_row_def Let_def)
  then have "import_rows py db_accepts example_columns ''id'' example_table example_rows =
      (Inl TypeError, example_table)"
    by (simp add: import_rows_def)
  with c r1 import_rows_all_or_nothing [of example_rows example_columns py db_accepts
      "''id''" example_table]
  show "clean_row py example_columns (example_rows ! 0) [] = Inr [(''id'', CInt 1), (''price'', CInt 7)] \<and>
     convert_value py TInt (CDateTime 0) = Inl TypeError \<and>
     import_rows py db_accepts example_columns ''id'' example_table example_rows =
       (Inl TypeError, example_table)"
    by simp
qed

text \<open>
  Claim C8 on an empty cell of a text column: \<^verbatim>\<open>_convert_value\<close> returns \<^verbatim>\<open>None\<close> at its
  first test and never reaches the text branch, which would give the empty text the
  claim asks for. Every other value of a text column is converted to its string form.
\<close>

theorem convert_value_text_null:
  "convert_value py TStr CNone = Inr CNone \<and>
   convert_value py TStr CNone \<noteq> Inr (CStr []) \<and>
   convert_value py TStr (CStr s) = Inr (CStr s) \<and>
   convert_value py TStr (CInt n) = Inr (CStr (py_str py (CInt n))) \<and>
   convert_value py TStr (CFloat r) = Inr (CStr (py_str py (CFloat r))) \<and>
   convert_value py TStr (CBool b) = Inr (CStr (py_str py (CBool b))) \<and>
   convert_value py TStr (CDateTime d) = Inr (CStr (py_str py (CDateTime d)))"
  by (simp add: convert_value_def py_str_def)

section \<open>Properties of the bundle form\<close>






end
